theory Spec2Isabelle
  imports Complex_Main "HOL-Library.Multiset" "HOL-Library.Log_Nat"
begin

section \<open>Data model\<close>

text \<open>
  A row of the \<open>votes\<close> table as the application writes it (\<open>handleVote\<close> inserts
  \<open>{voter_id, candidate_id}\<close>). The two admin queries each select one of the two columns;
  the column a query does not select is simply never read by the code modelled below.
\<close>

record vote =
  voter_id :: string
  candidate_id :: string

text \<open>
  The error object of a backend response. Only \<open>code\<close> is inspected by the application.
\<close>

record PostgrestError =
  code :: string
  message :: string

text \<open>
  What \<open>await supabase.from(...).insert(...)\<close> can do: resolve to \<open>{ error }\<close> with
  \<open>error\<close> null or an error object, or reject (the awaited promise throws).
\<close>

datatype insert_response = Resolved "PostgrestError option" | Rejected

text \<open>A callback supplied by the parent either returns or throws.\<close>

datatype callback = Returns | Throws

text \<open>The payload of \<open>supabase.from("candidates").insert(...)\<close> in the admin panel.\<close>

record candidate_insert =
  name :: string
  party :: string
  description :: "string option"
  photo_url :: "string option"

text \<open>The controlled form state \<open>newCandidate\<close> of the admin panel: four strings.\<close>

record candidate_form =
  form_name :: string
  form_party :: string
  form_description :: string
  form_photo_url :: string

text \<open>
  Everything a handler does to the outside world, in program order: notifications,
  diagnostics, state setters, backend mutations and calls of other handlers.
\<close>

datatype effect =
    ToastError string
  | ToastSuccess string
  | ConsoleError string
  | SetVotingFor "string option"
  | InsertVote vote
  | OnVoteSuccess
  | PreventDefault
  | InsertCandidate candidate_insert
  | SetNewCandidate candidate_form
  | FetchCandidates
  | FetchVoteResults

section \<open>Voter view: \<open>CandidateList.tsx\<close>\<close>

text \<open>
  The columns \<open>id, name, party\<close> of a candidate, and the full \<open>Candidate\<close> row that
  extends them with the two nullable columns.
\<close>

record candidate_row =
  cand_id :: string
  cand_name :: string
  cand_party :: string

record Candidate = candidate_row +
  cand_description :: "string option"
  cand_photo_url :: "string option"

record CandidateListProps =
  userId :: string
  hasVoted :: bool
  onVoteSuccess :: callback

text \<open>The three \<open>useState\<close> cells of the component.\<close>

record CandidateListState =
  candidates :: "Candidate list"
  loading :: bool
  votingFor :: "string option"

text \<open>
  The \<open>try\<close> block of \<open>handleVote\<close> (lines 57--74): its effects, and whether it ended by
  throwing. The insert is attempted first; a resolved error with code \<open>23505\<close> is handled
  in place, any other resolved error is re-thrown, a rejected promise throws, and on
  success the callback runs inside the \<open>try\<close>, so a throwing callback is caught as well.
\<close>

definition try_block :: "CandidateListProps \<Rightarrow> insert_response \<Rightarrow> string \<Rightarrow> effect list \<times> bool" where
  "try_block props resp candidateId =
     (let ins = InsertVote \<lparr>voter_id = userId props, candidate_id = candidateId\<rparr> in
      case resp of
        Rejected \<Rightarrow> ([ins], True)
      | Resolved (Some error) \<Rightarrow>
          if code error = ''23505''
          then ([ins, ToastError ''You have already cast your vote!''], False)
          else ([ins], True)
      | Resolved None \<Rightarrow>
          ([ins, ToastSuccess ''Vote cast successfully!'', OnVoteSuccess],
           case onVoteSuccess props of Returns \<Rightarrow> False | Throws \<Rightarrow> True))"

text \<open>The \<open>catch\<close> block (lines 75--77).\<close>

definition catch_block :: "effect list" where
  "catch_block = [ConsoleError ''Error casting vote:'', ToastError ''Failed to cast vote'']"

text \<open>
  \<open>handleVote\<close> (lines 49--81): the early return on \<open>hasVoted\<close>, then
  \<open>setVotingFor(candidateId)\<close>, the \<open>try\<close>/\<open>catch\<close>, and \<open>setVotingFor(null)\<close> in
  \<open>finally\<close>. The result is the component state after the call and the effects in order.
\<close>

definition handleVote ::
  "CandidateListProps \<Rightarrow> insert_response \<Rightarrow> string \<Rightarrow> CandidateListState
     \<Rightarrow> CandidateListState \<times> effect list" where
  "handleVote props resp candidateId st =
     (if hasVoted props then (st, [ToastError ''You have already voted!''])
      else
        let (tried, thrown) = try_block props resp candidateId in
        (st\<lparr>votingFor := None\<rparr>,
         [SetVotingFor (Some candidateId)] @ tried
           @ (if thrown then catch_block else [])
           @ [SetVotingFor None]))"

text \<open>Reading a trace.\<close>

fun is_insert :: "effect \<Rightarrow> bool" where
  "is_insert (InsertVote v) = True"
| "is_insert (InsertCandidate c) = True"
| "is_insert e = False"

fun votingFor_writes :: "effect list \<Rightarrow> string option list" where
  "votingFor_writes [] = []"
| "votingFor_writes (SetVotingFor v # es) = v # votingFor_writes es"
| "votingFor_writes (e # es) = votingFor_writes es"

section \<open>Admin view: \<open>AdminPanel\<close>\<close>

text \<open>
  \<open>VoteCount\<close>, with \<open>vote_count\<close> a length and hence a natural number. Its first field
  is \<open>candidate_id\<close> in the source; here it is \<open>vc_candidate_id\<close>, the plain name being the
  column of \<^typ>\<open>vote\<close>.
\<close>

record VoteCount =
  vc_candidate_id :: string
  candidate_name :: string
  candidate_party :: string
  vote_count :: nat

text \<open>A row of \<open>profiles\<close> as selected, and \<open>Voter\<close>, which adds the derived flag.\<close>

record profile =
  profile_id :: string
  email :: string
  full_name :: "string option"
  created_at :: string

record Voter = profile +
  has_voted :: bool

record AdminPanelState =
  adm_candidates :: "Candidate list"
  voteResults :: "VoteCount list"
  voters :: "Voter list"
  adm_loading :: bool
  newCandidate :: candidate_form

text \<open>
  \<open>Array.prototype.sort\<close> with a comparator is stable: an element moves behind another
  only when the comparator is positive on the pair. For a consistent comparator the result
  is the one list that is ordered and keeps equal elements in their input order, which
  insertion from the right computes.
\<close>

fun js_insert :: "('a \<Rightarrow> 'a \<Rightarrow> int) \<Rightarrow> 'a \<Rightarrow> 'a list \<Rightarrow> 'a list" where
  "js_insert cmp x [] = [x]"
| "js_insert cmp x (y # ys) = (if cmp x y > 0 then y # js_insert cmp x ys else x # y # ys)"

definition js_sort :: "('a \<Rightarrow> 'a \<Rightarrow> int) \<Rightarrow> 'a list \<Rightarrow> 'a list" where
  "js_sort cmp xs = foldr (js_insert cmp) xs []"

text \<open>The comparator of line 102: \<open>(a, b) => b.vote_count - a.vote_count\<close>.\<close>

definition compare_counts :: "VoteCount \<Rightarrow> VoteCount \<Rightarrow> int" where
  "compare_counts a b = int (vote_count b) - int (vote_count a)"

text \<open>Lines 95--100: one entry per fetched candidate, counting the matching vote rows.\<close>

definition voteCounts :: "vote list \<Rightarrow> candidate_row list \<Rightarrow> VoteCount list" where
  "voteCounts votesData candidatesData =
     map (\<lambda>candidate.
            \<lparr>vc_candidate_id = cand_id candidate,
             candidate_name = cand_name candidate,
             candidate_party = cand_party candidate,
             vote_count = length (filter (\<lambda>vote. candidate_id vote = cand_id candidate) votesData)\<rparr>)
         candidatesData"

text \<open>
  \<open>fetchVoteResults\<close> (lines 81--108). Each query answers with an error (\<open>Inl\<close>), which is
  thrown and caught at the end, or with its rows. Only when both succeed is
  \<open>voteResults\<close> replaced, by the sorted counts.
\<close>

definition fetchVoteResults ::
  "PostgrestError + vote list \<Rightarrow> PostgrestError + candidate_row list \<Rightarrow> AdminPanelState
     \<Rightarrow> AdminPanelState \<times> effect list" where
  "fetchVoteResults votesResp candidatesResp st =
     (let failed = (st, [ConsoleError ''Error fetching vote results:'',
                         ToastError ''Failed to load vote results'']) in
      case votesResp of
        Inl votesError \<Rightarrow> failed
      | Inr votesData \<Rightarrow>
          (case candidatesResp of
             Inl candidatesError \<Rightarrow> failed
           | Inr candidatesData \<Rightarrow>
               (st\<lparr>voteResults := js_sort compare_counts (voteCounts votesData candidatesData)\<rparr>,
                [])))"

text \<open>Line 175: \<open>voteResults.reduce((sum, result) => sum + result.vote_count, 0)\<close>.\<close>

definition totalVotes :: "VoteCount list \<Rightarrow> nat" where
  "totalVotes results = foldl (\<lambda>sum result. sum + vote_count result) 0 results"

text \<open>
  The values a JavaScript number takes here: a finite binary64 value, given by the
  rational it denotes, \<open>Infinity\<close> or \<open>NaN\<close>. Only non-negative values occur (counts and
  the constant \<open>100\<close>), so signs are left out.
\<close>

datatype js_number = Num rat | Infinity | NaN

text \<open>
  The exponent of a positive rational: the \<open>e\<close> with \<open>2\<^sup>e \<le> x < 2\<^sup>e\<^sup>+\<^sup>1\<close>. The bit lengths
  of numerator and denominator give it up to one, and a comparison decides.
\<close>

definition ilog2 :: "rat \<Rightarrow> int" where
  "ilog2 x = (let (p, q) = quotient_of x; d = bitlen p - bitlen q
              in if 2 powi d \<le> x then d else d - 1)"

text \<open>Rounding to the nearest integer, a tie going to the even one.\<close>

definition round_half_even :: "rat \<Rightarrow> int" where
  "round_half_even z =
     (let f = \<lfloor>z\<rfloor>; r = z - of_int f
      in if r < 1 / 2 then f else if 1 / 2 < r then f + 1 else if even f then f else f + 1)"

text \<open>
  The binary64 result of an operation whose exact result is the non-negative rational
  \<open>x\<close> (IEEE 754, round to nearest, ties to even): \<open>x\<close> is rounded to a multiple of
  \<open>2\<^sup>e\<^sup>-\<^sup>5\<^sup>2\<close>, where \<open>e\<close> is its exponent, or \<open>-1022\<close> in the subnormal range, and a
  rounded value of \<open>2\<^sup>1\<^sup>0\<^sup>2\<^sup>4\<close> or more overflows.
\<close>

definition round_binary64 :: "rat \<Rightarrow> js_number" where
  "round_binary64 x =
     (if x = 0 then Num 0
      else let e = max (ilog2 x) (- 1022);
               q = 2 powi (e - 52);
               y = of_int (round_half_even (x / q)) * q
           in if 2 powi 1024 \<le> y then Infinity else Num y)"

text \<open>The operators \<open>/\<close> and \<open>*\<close> on such numbers.\<close>

fun js_div :: "js_number \<Rightarrow> js_number \<Rightarrow> js_number" where
  "js_div (Num a) (Num b) =
     (if b = 0 then (if a = 0 then NaN else Infinity) else round_binary64 (a / b))"
| "js_div (Num a) Infinity = Num 0"
| "js_div Infinity (Num b) = Infinity"
| "js_div Infinity Infinity = NaN"
| "js_div NaN y = NaN"
| "js_div x NaN = NaN"

fun js_times :: "js_number \<Rightarrow> js_number \<Rightarrow> js_number" where
  "js_times (Num a) (Num b) = round_binary64 (a * b)"
| "js_times (Num a) Infinity = (if a = 0 then NaN else Infinity)"
| "js_times Infinity (Num b) = (if b = 0 then NaN else Infinity)"
| "js_times Infinity Infinity = Infinity"
| "js_times NaN y = NaN"
| "js_times x NaN = NaN"

text \<open>
  Line 209, for one entry of \<open>voteResults\<close>; \<open>tot\<close> is the value of \<open>totalVotes\<close>. Both
  operands of the division are integers that a binary64 number holds exactly (array
  lengths and their sum).
\<close>

definition percentage :: "nat \<Rightarrow> VoteCount \<Rightarrow> js_number" where
  "percentage tot result =
     (if tot > 0
      then js_times (js_div (Num (of_nat (vote_count result))) (Num (of_nat tot))) (Num 100)
      else Num 0)"

text \<open>Lines 208--209: the percentages of the rendered list, in order.\<close>

definition percentages :: "VoteCount list \<Rightarrow> js_number list" where
  "percentages results = map (percentage (totalVotes results)) results"

text \<open>
  \<open>toFixed(1)\<close>: the decimal numeral with one fractional digit nearest to the value, the
  larger one on a tie (for values below \<open>10\<^sup>2\<^sup>1\<close>, which every percentage is).
\<close>

fun decimal :: "nat \<Rightarrow> string" where
  "decimal n =
     (if n < 10 then [''0123456789'' ! n]
      else decimal (n div 10) @ [''0123456789'' ! (n mod 10)])"

declare decimal.simps [simp del]

definition toFixed1 :: "js_number \<Rightarrow> string" where
  "toFixed1 v =
     (case v of
        NaN \<Rightarrow> ''NaN''
      | Infinity \<Rightarrow> ''Infinity''
      | Num x \<Rightarrow>
          (let n = nat \<lfloor>x * 10 + 1 / 2\<rfloor> in decimal (n div 10) @ ''.'' @ decimal (n mod 10)))"

text \<open>Line 225: the text \<open>{percentage.toFixed(1)}%\<close> of each entry.\<close>

definition percentage_labels :: "VoteCount list \<Rightarrow> string list" where
  "percentage_labels results = map (\<lambda>p. toFixed1 p @ ''%'') (percentages results)"

text \<open>
  \<open>fetchVoters\<close> (lines 110--135): each profile is copied (the object spread) and
  labelled with \<open>votesData.some(...)\<close>.
\<close>

definition votersWithStatus :: "profile list \<Rightarrow> vote list \<Rightarrow> Voter list" where
  "votersWithStatus profilesData votesData =
     map (\<lambda>p. profile.extend p
                 (Voter.fields (list_ex (\<lambda>vote. voter_id vote = profile_id p) votesData)))
         profilesData"

definition fetchVoters ::
  "PostgrestError + profile list \<Rightarrow> PostgrestError + vote list \<Rightarrow> AdminPanelState
     \<Rightarrow> AdminPanelState \<times> effect list" where
  "fetchVoters profilesResp votesResp st =
     (let failed = (st, [ConsoleError ''Error fetching voters:'',
                         ToastError ''Failed to load voters'']) in
      case profilesResp of
        Inl profilesError \<Rightarrow> failed
      | Inr profilesData \<Rightarrow>
          (case votesResp of
             Inl votesError \<Rightarrow> failed
           | Inr votesData \<Rightarrow> (st\<lparr>voters := votersWithStatus profilesData votesData\<rparr>, [])))"

text \<open>\<open>s || null\<close> on a string: the empty string is falsy, every other string is kept.\<close>

definition or_null :: "string \<Rightarrow> string option" where
  "or_null s = (if s = [] then None else Some s)"

text \<open>The object passed to \<open>insert\<close> in \<open>handleAddCandidate\<close> (lines 141--146).\<close>

definition candidate_payload :: "candidate_form \<Rightarrow> candidate_insert" where
  "candidate_payload f =
     \<lparr>name = form_name f,
      party = form_party f,
      description = or_null (form_description f),
      photo_url = or_null (form_photo_url f)\<rparr>"

definition empty_form :: candidate_form where
  "empty_form = \<lparr>form_name = [], form_party = [], form_description = [], form_photo_url = []\<rparr>"

text \<open>
  \<open>fetchCandidates\<close> of the admin panel (lines 64--79). The query answers with an error,
  which is thrown and caught, or with \<open>data\<close>, which may be \<open>null\<close>;
  \<open>setCandidates(data || [])\<close> stores the rows or the empty list. \<open>setLoading(false)\<close> runs
  in \<open>finally\<close>.
\<close>

definition fetchCandidates ::
  "PostgrestError + Candidate list option \<Rightarrow> AdminPanelState \<Rightarrow> AdminPanelState \<times> effect list" where
  "fetchCandidates candidatesResp st =
     (case candidatesResp of
        Inl error \<Rightarrow>
          (st\<lparr>adm_loading := False\<rparr>,
           [ConsoleError ''Error fetching candidates:'', ToastError ''Failed to load candidates''])
      | Inr data \<Rightarrow>
          (st\<lparr>adm_candidates := (case data of None \<Rightarrow> [] | Some rows \<Rightarrow> rows),
              adm_loading := False\<rparr>,
           []))"

text \<open>
  \<open>handleAddCandidate\<close> (lines 137--158). A resolved error is thrown, a rejected insert
  throws; both end in the \<open>catch\<close>, which leaves the form and the lists as they are. On
  success the form is reset and \<open>fetchCandidates()\<close> and \<open>fetchVoteResults()\<close> are called;
  the arguments after \<open>resp\<close> are the backend's answers to their three queries. The two
  calls are not awaited and write different state cells, so the state after both have
  settled does not depend on which settles first; their effects are listed in call order.
\<close>

definition handleAddCandidate ::
  "insert_response \<Rightarrow> PostgrestError + Candidate list option \<Rightarrow> PostgrestError + vote list
     \<Rightarrow> PostgrestError + candidate_row list \<Rightarrow> AdminPanelState
     \<Rightarrow> AdminPanelState \<times> effect list" where
  "handleAddCandidate resp candidatesResp votesResp rowsResp st =
     (let before = [PreventDefault, InsertCandidate (candidate_payload (newCandidate st))] in
      case resp of
        Resolved None \<Rightarrow>
          (let st1 = st\<lparr>newCandidate := empty_form\<rparr>;
               (st2, es2) = fetchCandidates candidatesResp st1;
               (st3, es3) = fetchVoteResults votesResp rowsResp st2
           in (st3,
               before @ [ToastSuccess ''Candidate added successfully'',
                         SetNewCandidate empty_form, FetchCandidates, FetchVoteResults]
                 @ es2 @ es3))
      | _ \<Rightarrow>
          (st, before @ [ConsoleError ''Error adding candidate:'',
                         ToastError ''Failed to add candidate'']))"

text \<open>
  The tally entry of section 4.2 of the specification, written from its words: the
  candidate's id, name and party, and as count the number of vote records whose candidate
  reference is that candidate's id. The code's \<open>voteCounts\<close> is compared with it below.
\<close>

definition spec_tally_entry :: "vote list \<Rightarrow> candidate_row \<Rightarrow> VoteCount" where
  "spec_tally_entry votes candidate =
     \<lparr>vc_candidate_id = cand_id candidate,
      candidate_name = cand_name candidate,
      candidate_party = cand_party candidate,
      vote_count = count_list (map candidate_id votes) (cand_id candidate)\<rparr>"

section \<open>Vote submission\<close>

text \<open>
  C1. When the externally supplied \<open>hasVoted\<close> flag is true, \<open>handleVote\<close> only raises the
  already-voted notification: the trace is that single toast, so no insert is attempted
  whatever the backend would have answered, and the component state is returned as it was.
\<close>

theorem handleVote_hasVoted_rejects:
  assumes "hasVoted props"
  shows "handleVote props resp candidateId st = (st, [ToastError ''You have already voted!''])
         \<and> filter is_insert (snd (handleVote props resp candidateId st)) = []
         \<and> fst (handleVote props resp candidateId st) = st"
  using assms by (simp add: handleVote_def)

theorem handleVote_hasVoted_rejects_witness:
  "hasVoted \<lparr>userId = ''u1'', hasVoted = True, onVoteSuccess = Returns\<rparr>
   \<and> handleVote \<lparr>userId = ''u1'', hasVoted = True, onVoteSuccess = Returns\<rparr>
         (Resolved None) ''a'' \<lparr>candidates = [], loading = False, votingFor = None\<rparr>
       = (\<lparr>candidates = [], loading = False, votingFor = None\<rparr>,
          [ToastError ''You have already voted!''])"
  using handleVote_hasVoted_rejects
    [of "\<lparr>userId = ''u1'', hasVoted = True, onVoteSuccess = Returns\<rparr>"
        "Resolved None" "''a''" "\<lparr>candidates = [], loading = False, votingFor = None\<rparr>"]
  by simp

text \<open>
  C2. In a submission that reaches the insert (\<open>hasVoted\<close> false), a resolved error with
  code \<open>23505\<close> produces the already-voted toast and neither the diagnostic nor the
  generic failure toast; a resolved error with any other code, and a rejected insert,
  produce the diagnostic and the generic failure toast.
\<close>

theorem handleVote_insert_error:
  assumes "\<not> hasVoted props"
  shows "(code error = ''23505'' \<longrightarrow>
            snd (handleVote props (Resolved (Some error)) candidateId st) =
              [SetVotingFor (Some candidateId),
               InsertVote \<lparr>voter_id = userId props, candidate_id = candidateId\<rparr>,
               ToastError ''You have already cast your vote!'',
               SetVotingFor None])
       \<and> (code error \<noteq> ''23505'' \<longrightarrow>
            snd (handleVote props (Resolved (Some error)) candidateId st) =
              [SetVotingFor (Some candidateId),
               InsertVote \<lparr>voter_id = userId props, candidate_id = candidateId\<rparr>,
               ConsoleError ''Error casting vote:'',
               ToastError ''Failed to cast vote'',
               SetVotingFor None])
       \<and> snd (handleVote props Rejected candidateId st) =
              [SetVotingFor (Some candidateId),
               InsertVote \<lparr>voter_id = userId props, candidate_id = candidateId\<rparr>,
               ConsoleError ''Error casting vote:'',
               ToastError ''Failed to cast vote'',
               SetVotingFor None]"
  using assms by (simp add: handleVote_def try_block_def catch_block_def)

theorem handleVote_insert_error_witness:
  "\<not> hasVoted \<lparr>userId = ''u1'', hasVoted = False, onVoteSuccess = Returns\<rparr>
   \<and> snd (handleVote \<lparr>userId = ''u1'', hasVoted = False, onVoteSuccess = Returns\<rparr>
            (Resolved (Some \<lparr>code = ''23505'', message = ''duplicate key''\<rparr>)) ''a''
            \<lparr>candidates = [], loading = False, votingFor = None\<rparr>) =
         [SetVotingFor (Some ''a''), InsertVote \<lparr>voter_id = ''u1'', candidate_id = ''a''\<rparr>,
          ToastError ''You have already cast your vote!'', SetVotingFor None]
   \<and> snd (handleVote \<lparr>userId = ''u1'', hasVoted = False, onVoteSuccess = Returns\<rparr>
            (Resolved (Some \<lparr>code = ''42501'', message = ''denied''\<rparr>)) ''a''
            \<lparr>candidates = [], loading = False, votingFor = None\<rparr>) =
         [SetVotingFor (Some ''a''), InsertVote \<lparr>voter_id = ''u1'', candidate_id = ''a''\<rparr>,
          ConsoleError ''Error casting vote:'', ToastError ''Failed to cast vote'',
          SetVotingFor None]"
  using
    handleVote_insert_error
      [of "\<lparr>userId = ''u1'', hasVoted = False, onVoteSuccess = Returns\<rparr>"
          "\<lparr>code = ''23505'', message = ''duplicate key''\<rparr>" "''a''"
          "\<lparr>candidates = [], loading = False, votingFor = None\<rparr>"]
    handleVote_insert_error
      [of "\<lparr>userId = ''u1'', hasVoted = False, onVoteSuccess = Returns\<rparr>"
          "\<lparr>code = ''42501'', message = ''denied''\<rparr>" "''a''"
          "\<lparr>candidates = [], loading = False, votingFor = None\<rparr>"]
  by simp

text \<open>
  C7. A submission that passes the \<open>hasVoted\<close> check enters the submitting state and
  leaves it again whatever the insert and the callback do: the writes to \<open>votingFor\<close> are
  exactly \<open>candidateId\<close> and then \<open>null\<close>, the reset is the last effect of the call, and
  the state after the call has \<open>votingFor = null\<close>.
\<close>

theorem handleVote_returns_to_idle:
  assumes "\<not> hasVoted props"
  shows "votingFor (fst (handleVote props resp candidateId st)) = None
       \<and> votingFor_writes (snd (handleVote props resp candidateId st)) = [Some candidateId, None]
       \<and> last (snd (handleVote props resp candidateId st)) = SetVotingFor None"
proof (cases resp)
  case (Resolved e)
  show ?thesis
  proof (cases e)
    case None
    with Resolved assms show ?thesis
      by (cases "onVoteSuccess props")
         (simp_all add: handleVote_def try_block_def catch_block_def)
  next
    case (Some err)
    with Resolved assms show ?thesis
      by (simp add: handleVote_def try_block_def catch_block_def Let_def)
  qed
next
  case Rejected
  with assms show ?thesis
    by (simp add: handleVote_def try_block_def catch_block_def)
qed

theorem handleVote_returns_to_idle_witness:
  "\<not> hasVoted \<lparr>userId = ''u1'', hasVoted = False, onVoteSuccess = Throws\<rparr>
   \<and> votingFor (fst (handleVote \<lparr>userId = ''u1'', hasVoted = False, onVoteSuccess = Throws\<rparr>
         (Resolved None) ''a'' \<lparr>candidates = [], loading = False, votingFor = None\<rparr>)) = None
   \<and> votingFor_writes
         (snd (handleVote \<lparr>userId = ''u1'', hasVoted = False, onVoteSuccess = Throws\<rparr>
            (Resolved None) ''a'' \<lparr>candidates = [], loading = False, votingFor = None\<rparr>))
       = [Some ''a'', None]"
  using handleVote_returns_to_idle
    [of "\<lparr>userId = ''u1'', hasVoted = False, onVoteSuccess = Throws\<rparr>"
        "Resolved None" "''a''" "\<lparr>candidates = [], loading = False, votingFor = None\<rparr>"]
  by simp

text \<open>
  C10. \<open>onVoteSuccess\<close> is called once when the insert is attempted and resolves without
  error, and not at all otherwise: not on the early return, not on a \<open>23505\<close> conflict or
  any other resolved error, not on a rejected insert. After a conflict the parent is thus
  not told to refresh \<open>hasVoted\<close>.
\<close>

theorem handleVote_onVoteSuccess_count:
  "count_list (snd (handleVote props resp candidateId st)) OnVoteSuccess =
     (if \<not> hasVoted props \<and> resp = Resolved None then 1 else 0)"
proof (cases resp)
  case (Resolved e)
  show ?thesis
  proof (cases e)
    case None
    with Resolved show ?thesis
      by (cases "onVoteSuccess props")
         (simp_all add: handleVote_def try_block_def catch_block_def)
  next
    case (Some err)
    with Resolved show ?thesis
      by (simp add: handleVote_def try_block_def catch_block_def Let_def)
  qed
next
  case Rejected
  then show ?thesis
    by (simp add: handleVote_def try_block_def catch_block_def)
qed

theorem handleVote_onVoteSuccess_count_witness:
  "count_list (snd (handleVote \<lparr>userId = ''u1'', hasVoted = False, onVoteSuccess = Returns\<rparr>
       (Resolved None) ''a'' \<lparr>candidates = [], loading = False, votingFor = None\<rparr>))
     OnVoteSuccess = 1
   \<and> count_list (snd (handleVote \<lparr>userId = ''u1'', hasVoted = False, onVoteSuccess = Returns\<rparr>
       (Resolved (Some \<lparr>code = ''23505'', message = ''duplicate key''\<rparr>)) ''a''
       \<lparr>candidates = [], loading = False, votingFor = None\<rparr>))
     OnVoteSuccess = 0"
  using
    handleVote_onVoteSuccess_count
      [of "\<lparr>userId = ''u1'', hasVoted = False, onVoteSuccess = Returns\<rparr>"
          "Resolved None" "''a''" "\<lparr>candidates = [], loading = False, votingFor = None\<rparr>"]
    handleVote_onVoteSuccess_count
      [of "\<lparr>userId = ''u1'', hasVoted = False, onVoteSuccess = Returns\<rparr>"
          "Resolved (Some \<lparr>code = ''23505'', message = ''duplicate key''\<rparr>)" "''a''"
          "\<lparr>candidates = [], loading = False, votingFor = None\<rparr>"]
  by simp

section \<open>Tally derivation\<close>

subsection \<open>The stable sort and the sum of the counts\<close>

lemma voteResults_fetched:
  "voteResults (fst (fetchVoteResults (Inr vs) (Inr cs) st)) = js_sort compare_counts (voteCounts vs cs)"
  by (simp add: fetchVoteResults_def)

lemma count_list_map_filter: "count_list (map f xs) a = length (filter (\<lambda>x. f x = a) xs)"
  by (induction xs) auto

lemma voteCounts_spec: "voteCounts vs cs = map (spec_tally_entry vs) cs"
  by (simp add: voteCounts_def spec_tally_entry_def count_list_map_filter)

lemma mset_js_insert: "mset (js_insert cmp x ys) = add_mset x (mset ys)"
  by (induction ys) auto

lemma mset_js_sort: "mset (js_sort cmp xs) = mset xs"
  by (induction xs) (auto simp: js_sort_def mset_js_insert)

lemma set_js_insert: "set (js_insert cmp x ys) = insert x (set ys)"
  by (induction ys) auto

lemma sorted_js_insert:
  "sorted_wrt (\<lambda>a b. vote_count b \<le> vote_count a) ys \<Longrightarrow>
   sorted_wrt (\<lambda>a b. vote_count b \<le> vote_count a) (js_insert compare_counts x ys)"
  by (induction ys) (auto simp: set_js_insert compare_counts_def)

lemma sorted_js_sort:
  "sorted_wrt (\<lambda>a b. vote_count b \<le> vote_count a) (js_sort compare_counts xs)"
proof (induction xs)
  case Nil
  show ?case by (simp add: js_sort_def)
next
  case (Cons x xs)
  then show ?case using sorted_js_insert [of "js_sort compare_counts xs" x]
    by (simp add: js_sort_def)
qed

lemma filter_js_insert:
  "filter (\<lambda>r. vote_count r = k) (js_insert compare_counts x ys) =
   filter (\<lambda>r. vote_count r = k) (x # ys)"
  by (induction ys) (auto simp: compare_counts_def)

lemma filter_js_sort:
  "filter (\<lambda>r. vote_count r = k) (js_sort compare_counts xs) = filter (\<lambda>r. vote_count r = k) xs"
proof (induction xs)
  case Nil
  show ?case by (simp add: js_sort_def)
next
  case (Cons x xs)
  have "filter (\<lambda>r. vote_count r = k) (js_sort compare_counts (x # xs)) =
        filter (\<lambda>r. vote_count r = k) (x # js_sort compare_counts xs)"
    by (simp add: js_sort_def filter_js_insert del: filter.simps)
  with Cons show ?case by simp
qed

lemma totalVotes_foldl:
  "foldl (\<lambda>sum result. sum + vote_count result) a rs = a + sum_list (map vote_count rs)"
  by (induction rs arbitrary: a) auto

lemma totalVotes_sum_list: "totalVotes rs = sum_list (map vote_count rs)"
  by (simp add: totalVotes_def totalVotes_foldl)

lemma sum_list_js_sort: "sum_list (map vote_count (js_sort cmp rs)) = sum_list (map vote_count rs)"
  using mset_js_sort [of cmp rs] by (metis mset_map sum_mset_sum_list)

lemma count_split:
  "a \<notin> S \<Longrightarrow>
   length (filter (\<lambda>v. candidate_id v = a) vs) + length (filter (\<lambda>v. candidate_id v \<in> S) vs)
     = length (filter (\<lambda>v. candidate_id v \<in> insert a S) vs)"
  by (induction vs) auto

lemma sum_voteCounts:
  "distinct (map cand_id cs) \<Longrightarrow>
   sum_list (map vote_count (voteCounts vs cs))
     = length (filter (\<lambda>v. candidate_id v \<in> cand_id ` set cs) vs)"
proof (induction cs)
  case Nil
  show ?case by (simp add: voteCounts_def)
next
  case (Cons c cs)
  then have notin: "cand_id c \<notin> cand_id ` set cs" and d: "distinct (map cand_id cs)"
    by auto
  have "sum_list (map vote_count (voteCounts vs (c # cs)))
        = length (filter (\<lambda>v. candidate_id v = cand_id c) vs)
          + sum_list (map vote_count (voteCounts vs cs))"
    by (simp add: voteCounts_def)
  also have "\<dots> = length (filter (\<lambda>v. candidate_id v = cand_id c) vs)
          + length (filter (\<lambda>v. candidate_id v \<in> cand_id ` set cs) vs)"
    using Cons.IH [OF d] by simp
  also have "\<dots> = length (filter (\<lambda>v. candidate_id v \<in> insert (cand_id c) (cand_id ` set cs)) vs)"
    by (rule count_split [OF notin])
  finally show ?case by simp
qed

lemma totalVotes_fetched:
  "distinct (map cand_id cs) \<Longrightarrow>
   totalVotes (voteResults (fst (fetchVoteResults (Inr vs) (Inr cs) st)))
     = length (filter (\<lambda>v. candidate_id v \<in> cand_id ` set cs) vs)"
  by (simp add: voteResults_fetched totalVotes_sum_list sum_list_js_sort sum_voteCounts)

lemma voteCounts_drop_orphans:
  "voteCounts (filter (\<lambda>v. candidate_id v \<in> cand_id ` set cs) vs) cs = voteCounts vs cs"
proof -
  have "\<And>c. c \<in> set cs \<Longrightarrow>
      filter (\<lambda>vote. candidate_id vote = cand_id c) (filter (\<lambda>v. candidate_id v \<in> cand_id ` set cs) vs)
      = filter (\<lambda>vote. candidate_id vote = cand_id c) vs"
    by (induction vs) auto
  then show ?thesis by (simp add: voteCounts_def)
qed

subsection \<open>The tally and its total\<close>

text \<open>
  C3. After a successful fetch, \<open>voteResults\<close> is determined by the fetched vote records
  and candidates alone (the previous state does not enter). It holds exactly one entry per
  fetched candidate, namely the specification's entry whose count is the number of vote
  records referring to that candidate's id; the entries are ordered by count, largest
  first; and for every count \<open>k\<close> the entries with that count stand in the order of the
  candidates they come from.
\<close>

theorem fetchVoteResults_tally:
  "mset (voteResults (fst (fetchVoteResults (Inr vs) (Inr cs) st))) = mset (map (spec_tally_entry vs) cs)
   \<and> length (voteResults (fst (fetchVoteResults (Inr vs) (Inr cs) st))) = length cs
   \<and> sorted_wrt (\<lambda>a b. vote_count b \<le> vote_count a)
        (voteResults (fst (fetchVoteResults (Inr vs) (Inr cs) st)))
   \<and> (\<forall>k. filter (\<lambda>r. vote_count r = k) (voteResults (fst (fetchVoteResults (Inr vs) (Inr cs) st)))
          = filter (\<lambda>r. vote_count r = k) (map (spec_tally_entry vs) cs))"
proof -
  have len: "length (js_sort compare_counts (voteCounts vs cs)) = length cs"
    using mset_js_sort [of compare_counts "voteCounts vs cs"]
    by (metis length_map size_mset voteCounts_spec)
  show ?thesis
    unfolding voteResults_fetched
    using len by (simp add: mset_js_sort sorted_js_sort filter_js_sort voteCounts_spec)
qed

theorem fetchVoteResults_tally_witness:
  "voteResults (fst (fetchVoteResults
      (Inr [\<lparr>voter_id = ''u1'', candidate_id = ''b''\<rparr>, \<lparr>voter_id = ''u2'', candidate_id = ''c''\<rparr>,
            \<lparr>voter_id = ''u3'', candidate_id = ''b''\<rparr>, \<lparr>voter_id = ''u4'', candidate_id = ''a''\<rparr>])
      (Inr [\<lparr>cand_id = ''a'', cand_name = ''A'', cand_party = ''X''\<rparr>,
            \<lparr>cand_id = ''b'', cand_name = ''B'', cand_party = ''Y''\<rparr>,
            \<lparr>cand_id = ''c'', cand_name = ''C'', cand_party = ''Z''\<rparr>])
      \<lparr>adm_candidates = [], voteResults = [], voters = [], adm_loading = False,
       newCandidate = empty_form\<rparr>))
   = [\<lparr>vc_candidate_id = ''b'', candidate_name = ''B'', candidate_party = ''Y'', vote_count = 2\<rparr>,
      \<lparr>vc_candidate_id = ''a'', candidate_name = ''A'', candidate_party = ''X'', vote_count = 1\<rparr>,
      \<lparr>vc_candidate_id = ''c'', candidate_name = ''C'', candidate_party = ''Z'', vote_count = 1\<rparr>]
   \<and> map (spec_tally_entry
        [\<lparr>voter_id = ''u1'', candidate_id = ''b''\<rparr>, \<lparr>voter_id = ''u2'', candidate_id = ''c''\<rparr>,
         \<lparr>voter_id = ''u3'', candidate_id = ''b''\<rparr>, \<lparr>voter_id = ''u4'', candidate_id = ''a''\<rparr>])
       [\<lparr>cand_id = ''a'', cand_name = ''A'', cand_party = ''X''\<rparr>,
        \<lparr>cand_id = ''b'', cand_name = ''B'', cand_party = ''Y''\<rparr>,
        \<lparr>cand_id = ''c'', cand_name = ''C'', cand_party = ''Z''\<rparr>]
   = [\<lparr>vc_candidate_id = ''a'', candidate_name = ''A'', candidate_party = ''X'', vote_count = 1\<rparr>,
      \<lparr>vc_candidate_id = ''b'', candidate_name = ''B'', candidate_party = ''Y'', vote_count = 2\<rparr>,
      \<lparr>vc_candidate_id = ''c'', candidate_name = ''C'', candidate_party = ''Z'', vote_count = 1\<rparr>]"
  using fetchVoteResults_tally
    [of "[\<lparr>voter_id = ''u1'', candidate_id = ''b''\<rparr>, \<lparr>voter_id = ''u2'', candidate_id = ''c''\<rparr>,
          \<lparr>voter_id = ''u3'', candidate_id = ''b''\<rparr>, \<lparr>voter_id = ''u4'', candidate_id = ''a''\<rparr>]"
        "[\<lparr>cand_id = ''a'', cand_name = ''A'', cand_party = ''X''\<rparr>,
          \<lparr>cand_id = ''b'', cand_name = ''B'', cand_party = ''Y''\<rparr>,
          \<lparr>cand_id = ''c'', cand_name = ''C'', cand_party = ''Z''\<rparr>]"
        "\<lparr>adm_candidates = [], voteResults = [], voters = [], adm_loading = False,
          newCandidate = empty_form\<rparr>"]
  by (simp add: fetchVoteResults_def voteCounts_def js_sort_def compare_counts_def
        spec_tally_entry_def)

text \<open>
  C5, as amended. The sum of the tally counts is \<open>totalVotes\<close>, which the code computes as
  that very sum. It is the number of fetched vote records when the fetched candidates have
  pairwise distinct ids and every vote record refers to one of them.
\<close>

theorem tally_sum_matched:
  "sum_list (map vote_count (voteResults (fst (fetchVoteResults (Inr vs) (Inr cs) st))))
     = totalVotes (voteResults (fst (fetchVoteResults (Inr vs) (Inr cs) st)))
   \<and> (distinct (map cand_id cs) \<and> (\<forall>v \<in> set vs. candidate_id v \<in> cand_id ` set cs) \<longrightarrow>
        totalVotes (voteResults (fst (fetchVoteResults (Inr vs) (Inr cs) st))) = length vs)"
proof -
  have "filter (\<lambda>v. candidate_id v \<in> cand_id ` set cs) vs = vs"
    if "\<forall>v \<in> set vs. candidate_id v \<in> cand_id ` set cs"
    using that by (simp add: filter_id_conv)
  then show ?thesis
    using totalVotes_fetched [of cs vs st] by (auto simp: totalVotes_sum_list)
qed

theorem tally_sum_matched_witness:
  "distinct (map cand_id [\<lparr>cand_id = ''a'', cand_name = ''A'', cand_party = ''X''\<rparr>,
                          \<lparr>cand_id = ''b'', cand_name = ''B'', cand_party = ''Y''\<rparr>])
   \<and> totalVotes (voteResults (fst (fetchVoteResults
        (Inr [\<lparr>voter_id = ''u1'', candidate_id = ''a''\<rparr>, \<lparr>voter_id = ''u2'', candidate_id = ''a''\<rparr>,
              \<lparr>voter_id = ''u3'', candidate_id = ''b''\<rparr>])
        (Inr [\<lparr>cand_id = ''a'', cand_name = ''A'', cand_party = ''X''\<rparr>,
              \<lparr>cand_id = ''b'', cand_name = ''B'', cand_party = ''Y''\<rparr>])
        \<lparr>adm_candidates = [], voteResults = [], voters = [], adm_loading = False,
         newCandidate = empty_form\<rparr>))) = 3"
  using tally_sum_matched
    [of "[\<lparr>voter_id = ''u1'', candidate_id = ''a''\<rparr>, \<lparr>voter_id = ''u2'', candidate_id = ''a''\<rparr>,
          \<lparr>voter_id = ''u3'', candidate_id = ''b''\<rparr>]"
        "[\<lparr>cand_id = ''a'', cand_name = ''A'', cand_party = ''X''\<rparr>,
          \<lparr>cand_id = ''b'', cand_name = ''B'', cand_party = ''Y''\<rparr>]"
        "\<lparr>adm_candidates = [], voteResults = [], voters = [], adm_loading = False,
          newCandidate = empty_form\<rparr>"]
  by simp

text \<open>
  C5 as stated fails: with one candidate \<open>a\<close> and one vote record that refers to a
  candidate \<open>z\<close> not among the fetched ones, both collections are non-empty, yet the counts
  sum to \<open>0\<close> and so does \<open>totalVotes\<close>, while there is one vote record.
\<close>

theorem tally_sum_counterexample:
  "[\<lparr>voter_id = ''u1'', candidate_id = ''z''\<rparr>] \<noteq> []
   \<and> [\<lparr>cand_id = ''a'', cand_name = ''Alice'', cand_party = ''X''\<rparr>] \<noteq> []
   \<and> sum_list (map vote_count (voteResults (fst (fetchVoteResults
        (Inr [\<lparr>voter_id = ''u1'', candidate_id = ''z''\<rparr>])
        (Inr [\<lparr>cand_id = ''a'', cand_name = ''Alice'', cand_party = ''X''\<rparr>])
        \<lparr>adm_candidates = [], voteResults = [], voters = [], adm_loading = False,
         newCandidate = empty_form\<rparr>))))
       \<noteq> length [\<lparr>voter_id = ''u1'', candidate_id = ''z''\<rparr>]
   \<and> totalVotes (voteResults (fst (fetchVoteResults
        (Inr [\<lparr>voter_id = ''u1'', candidate_id = ''z''\<rparr>])
        (Inr [\<lparr>cand_id = ''a'', cand_name = ''Alice'', cand_party = ''X''\<rparr>])
        \<lparr>adm_candidates = [], voteResults = [], voters = [], adm_loading = False,
         newCandidate = empty_form\<rparr>)))
       \<noteq> length [\<lparr>voter_id = ''u1'', candidate_id = ''z''\<rparr>]"
  by (simp add: fetchVoteResults_def voteCounts_def js_sort_def totalVotes_def)

text \<open>
  C9. Vote records that refer to no fetched candidate do not enter the tally: removing
  them from the fetched votes leaves \<open>voteResults\<close> as it is. \<open>totalVotes\<close> is the sum of
  the per-candidate counts; with candidate ids pairwise distinct, as the data model's
  unique id makes them, it is the number of vote records that do refer to a fetched
  candidate, hence strictly less than the number of vote records as soon as one of them
  is such an orphan.
\<close>

theorem orphan_votes_excluded:
  "voteResults (fst (fetchVoteResults (Inr vs) (Inr cs) st))
     = voteResults (fst (fetchVoteResults
         (Inr (filter (\<lambda>v. candidate_id v \<in> cand_id ` set cs) vs)) (Inr cs) st))
   \<and> totalVotes (voteResults (fst (fetchVoteResults (Inr vs) (Inr cs) st)))
     = sum_list (map vote_count (voteResults (fst (fetchVoteResults (Inr vs) (Inr cs) st))))
   \<and> (distinct (map cand_id cs) \<longrightarrow>
        totalVotes (voteResults (fst (fetchVoteResults (Inr vs) (Inr cs) st)))
          = length (filter (\<lambda>v. candidate_id v \<in> cand_id ` set cs) vs))
   \<and> (distinct (map cand_id cs) \<and> (\<exists>v \<in> set vs. candidate_id v \<notin> cand_id ` set cs) \<longrightarrow>
        totalVotes (voteResults (fst (fetchVoteResults (Inr vs) (Inr cs) st))) < length vs)"
proof -
  have less: "length (filter (\<lambda>v. candidate_id v \<in> cand_id ` set cs) vs) < length vs"
    if "\<exists>v \<in> set vs. candidate_id v \<notin> cand_id ` set cs"
  proof -
    from that obtain v where "v \<in> set vs" and "candidate_id v \<notin> cand_id ` set cs"
      by blast
    then show ?thesis by (rule length_filter_less)
  qed
  show ?thesis
    using less
    by (simp add: voteResults_fetched voteCounts_drop_orphans totalVotes_sum_list
          sum_list_js_sort sum_voteCounts)
qed

theorem orphan_votes_excluded_witness:
  "distinct (map cand_id [\<lparr>cand_id = ''a'', cand_name = ''A'', cand_party = ''X''\<rparr>])
   \<and> candidate_id \<lparr>voter_id = ''u2'', candidate_id = ''z''\<rparr>
        \<notin> cand_id ` set [\<lparr>cand_id = ''a'', cand_name = ''A'', cand_party = ''X''\<rparr>]
   \<and> totalVotes (voteResults (fst (fetchVoteResults
        (Inr [\<lparr>voter_id = ''u1'', candidate_id = ''a''\<rparr>, \<lparr>voter_id = ''u2'', candidate_id = ''z''\<rparr>])
        (Inr [\<lparr>cand_id = ''a'', cand_name = ''A'', cand_party = ''X''\<rparr>])
        \<lparr>adm_candidates = [], voteResults = [], voters = [], adm_loading = False,
         newCandidate = empty_form\<rparr>))) = 1
   \<and> length [\<lparr>voter_id = ''u1'', candidate_id = ''a''\<rparr>, \<lparr>voter_id = ''u2'', candidate_id = ''z''\<rparr>] = 2"
  using orphan_votes_excluded
    [of "[\<lparr>voter_id = ''u1'', candidate_id = ''a''\<rparr>, \<lparr>voter_id = ''u2'', candidate_id = ''z''\<rparr>]"
        "[\<lparr>cand_id = ''a'', cand_name = ''A'', cand_party = ''X''\<rparr>]"
        "\<lparr>adm_candidates = [], voteResults = [], voters = [], adm_loading = False,
          newCandidate = empty_form\<rparr>"]
  by (simp add: fetchVoteResults_def voteCounts_def js_sort_def totalVotes_def)

section \<open>Percentages\<close>

subsection \<open>Binary64 rounding\<close>

lemma ilog2_bounds:
  assumes "0 < x"
  shows "2 powi (ilog2 x) \<le> x \<and> x < 2 powi (ilog2 x + 1)"
proof -
  obtain p q where pq: "quotient_of x = (p, q)" by force
  then have q: "0 < q" by (rule quotient_of_denom_pos)
  have x: "x = of_int p / of_int q" using pq by (rule quotient_of_div)
  with assms q have p: "0 < p" by (simp add: zero_less_divide_iff)
  define bp where "bp = bitlen p"
  define bq where "bq = bitlen q"
  have bp: "2 ^ nat (bp - 1) \<le> p" "p < 2 ^ nat bp"
    using bitlen_bounds [OF p] by (simp_all add: bp_def)
  have bq: "2 ^ nat (bq - 1) \<le> q" "q < 2 ^ nat bq"
    using bitlen_bounds [OF q] by (simp_all add: bq_def)
  have bp1: "1 \<le> bp" using p bitlen_eq_zero_iff [of p] bitlen_nonneg [of p] by (simp add: bp_def)
  have bq1: "1 \<le> bq" using q bitlen_eq_zero_iff [of q] bitlen_nonneg [of q] by (simp add: bq_def)
  have cast: "(2::rat) powi k = of_int (2 ^ nat k)" if "0 \<le> k" for k
    using that by (simp add: power_int_nonneg_exp)
  have P1: "(2::rat) powi (bp - 1) \<le> of_int p"
    using bp(1) bp1 by (simp only: cast of_int_le_iff)
  have P2: "of_int p < (2::rat) powi bp"
    using bp(2) bp1 by (simp only: cast of_int_less_iff)
  have Q1: "(2::rat) powi (bq - 1) \<le> of_int q"
    using bq(1) bq1 by (simp only: cast of_int_le_iff)
  have Q2: "of_int q < (2::rat) powi bq"
    using bq(2) bq1 by (simp only: cast of_int_less_iff)
  have qpos: "(0::rat) < of_int q" using q by simp
  have upper: "x < 2 powi (bp - bq + 1)"
  proof -
    have "of_int p < (2::rat) powi bp" by (rule P2)
    also have "\<dots> = 2 powi (bp - bq + 1) * 2 powi (bq - 1)"
      by (simp flip: power_int_add)
    also have "\<dots> \<le> 2 powi (bp - bq + 1) * of_int q"
      using Q1 by (simp add: mult_left_mono)
    finally show ?thesis using qpos by (simp add: x pos_divide_less_eq)
  qed
  have lower: "2 powi (bp - bq - 1) \<le> x"
  proof -
    have "2 powi (bp - bq - 1) * of_int q \<le> (2::rat) powi (bp - bq - 1) * 2 powi bq"
      using Q2 by (simp add: mult_left_mono)
    also have "\<dots> = 2 powi (bp - 1)"
      by (simp flip: power_int_add)
    also have "\<dots> \<le> of_int p" by (rule P1)
    finally show ?thesis using qpos by (simp add: x pos_le_divide_eq)
  qed
  show ?thesis
  proof (cases "2 powi (bp - bq) \<le> x")
    case True
    then have "ilog2 x = bp - bq" by (simp add: ilog2_def pq bp_def bq_def)
    with True upper show ?thesis by simp
  next
    case False
    then have "ilog2 x = bp - bq - 1" by (simp add: ilog2_def pq bp_def bq_def)
    with False lower show ?thesis by simp
  qed
qed

lemma ilog2_eqI:
  assumes "2 powi e \<le> x" and "x < 2 powi (e + 1)"
  shows "ilog2 x = e"
proof -
  have pos: "0 < x" using assms(1) zero_less_power_int [of "2::rat" e] by linarith
  note b = ilog2_bounds [OF pos]
  have "\<not> ilog2 x < e"
  proof
    assume "ilog2 x < e"
    then have "(2::rat) powi (ilog2 x + 1) \<le> 2 powi e"
      by (intro power_int_increasing) auto
    with assms(1) b show False by linarith
  qed
  moreover have "\<not> e < ilog2 x"
  proof
    assume "e < ilog2 x"
    then have "(2::rat) powi (e + 1) \<le> 2 powi (ilog2 x)"
      by (intro power_int_increasing) auto
    with assms(2) b show False by linarith
  qed
  ultimately show ?thesis by linarith
qed


lemma round_half_even_le:
  assumes "z \<le> of_int N"
  shows "round_half_even z \<le> N"
proof (cases "z = of_int N")
  case True
  then show ?thesis by (simp add: round_half_even_def)
next
  case False
  with assms have "z < of_int N" by simp
  then have "\<lfloor>z\<rfloor> < N" by (simp add: floor_less_iff)
  then show ?thesis by (simp add: round_half_even_def Let_def)
qed

lemma round_half_even_nonneg:
  assumes "0 \<le> z"
  shows "0 \<le> round_half_even z"
proof -
  have "0 \<le> \<lfloor>z\<rfloor>" using assms by simp
  then show ?thesis by (simp add: round_half_even_def Let_def)
qed

lemma round_half_even_error: "\<bar>of_int (round_half_even z) - z\<bar> \<le> 1 / 2"
proof -
  have "of_int \<lfloor>z\<rfloor> \<le> z" "z < of_int \<lfloor>z\<rfloor> + 1" by linarith+
  then show ?thesis by (auto simp: round_half_even_def Let_def)
qed

lemma round_binary64_le:
  assumes "0 \<le> x" and "x \<le> of_int M" and "of_int M < (2::rat) powi 53"
  shows "\<exists>y. round_binary64 x = Num y \<and> 0 \<le> y \<and> y \<le> of_int M"
proof (cases "x = 0")
  case True
  with assms show ?thesis by (simp add: round_binary64_def)
next
  case False
  with assms have pos: "0 < x" by simp
  define e where "e = max (ilog2 x) (- 1022)"
  define q where "q = (2::rat) powi (e - 52)"
  define n where "n = round_half_even (x / q)"
  have qpos: "0 < q" by (simp add: q_def)
  have "2 powi (ilog2 x) \<le> x" using ilog2_bounds [OF pos] by simp
  with assms have "(2::rat) powi (ilog2 x) < 2 powi 53" by linarith
  then have "ilog2 x < 53" by (rule power_int_le_imp_less_exp [rotated]) simp_all
  then have e52: "e \<le> 52" by (simp add: e_def)
  have qinv: "1 / q = of_int (2 ^ nat (52 - e))"
  proof -
    have "(2::rat) powi (52 - e) = 2 powi (- (e - 52))" by simp
    also have "\<dots> = 1 / 2 powi (e - 52)" by (rule power_int_minus_divide)
    finally have "1 / q = (2::rat) powi (52 - e)" by (simp add: q_def)
    also have "\<dots> = 2 ^ nat (52 - e)" using e52 by (simp add: power_int_nonneg_exp)
    finally show ?thesis by simp
  qed
  have "x / q \<le> of_int M / q" using assms(2) qpos by (simp add: divide_right_mono)
  also have "of_int M / q = of_int M * (1 / q)" by simp
  also have "\<dots> = of_int (M * 2 ^ nat (52 - e))" by (simp only: qinv of_int_mult)
  finally have n_le: "n \<le> M * 2 ^ nat (52 - e)"
    unfolding n_def by (rule round_half_even_le)
  have n0: "0 \<le> n" unfolding n_def using pos qpos by (intro round_half_even_nonneg) simp
  have "of_int n * q \<le> of_int (M * 2 ^ nat (52 - e)) * q"
    using n_le qpos by (simp add: mult_right_mono del: of_int_mult of_int_power)
  also have "\<dots> = of_int M * (of_int (2 ^ nat (52 - e)) * q)" by simp
  also have "of_int (2 ^ nat (52 - e)) * q = 1"
    using qpos by (simp only: qinv [symmetric]) simp
  finally have y_le: "of_int n * q \<le> of_int M" by simp
  have y0: "0 \<le> of_int n * q" using n0 qpos by simp
  have "of_int M < (2::rat) powi 1024"
    using assms(3) power_int_strict_increasing [of 53 1024 "2::rat"] by (simp del: power_int_numeral)
  with y_le have "\<not> 2 powi 1024 \<le> of_int n * q" by (simp del: power_int_numeral)
  then have "round_binary64 x = Num (of_int n * q)"
    using False by (simp add: round_binary64_def Let_def e_def [symmetric] q_def [symmetric] n_def [symmetric] del: power_int_numeral)
  with y_le y0 show ?thesis by blast
qed

lemma floor_rat_numeral:
  "\<lfloor>(numeral a / numeral b :: rat)\<rfloor> = numeral a div numeral b"
  using floor_divide_of_int_eq [of "numeral a" "numeral b", where 'a = rat] by simp

lemma round_half_even_eqI:
  assumes "\<bar>of_int n - z\<bar> < 1 / 2"
  shows "round_half_even z = n"
proof (cases "of_int n \<le> z")
  case True
  with assms have "\<lfloor>z\<rfloor> = n" by (intro floor_unique) auto
  with assms True show ?thesis by (simp add: round_half_even_def Let_def)
next
  case False
  with assms have "\<lfloor>z\<rfloor> = n - 1" by (intro floor_unique) auto
  with assms False show ?thesis by (simp add: round_half_even_def Let_def)
qed

lemma round_binary64_eqI:
  assumes "2 powi e \<le> x" and "x < 2 powi (e + 1)" and "- 1022 \<le> e"
    and "\<bar>of_int n - x / 2 powi (e - 52)\<bar> < 1 / 2"
    and "of_int n * 2 powi (e - 52) < (2::rat) powi 1024"
  shows "round_binary64 x = Num (of_int n * 2 powi (e - 52))"
proof -
  have pos: "0 < x" using assms(1) zero_less_power_int [of "2::rat" e] by linarith
  have e: "ilog2 x = e" using assms(1,2) by (rule ilog2_eqI)
  have m: "max e (- 1022) = e" using assms(3) by simp
  have n: "round_half_even (x / 2 powi (e - 52)) = n" using assms(4) by (rule round_half_even_eqI)
  show ?thesis
    using pos assms(5)
    by (simp add: round_binary64_def Let_def e m n del: power_int_numeral)
qed

lemma round_binary64_error:
  assumes "0 \<le> x" and "x < 2 powi (k + 1)" and "0 \<le> k" and "round_binary64 x = Num y"
  shows "\<bar>y - x\<bar> \<le> 2 powi (k - 53)"
proof (cases "x = 0")
  case True
  with assms(4) show ?thesis by (simp add: round_binary64_def)
next
  case False
  with assms have pos: "0 < x" by simp
  define e where "e = max (ilog2 x) (- 1022)"
  define q where "q = (2::rat) powi (e - 52)"
  define n where "n = round_half_even (x / q)"
  have qpos: "0 < q" by (simp add: q_def)
  have "2 powi (ilog2 x) \<le> x" using ilog2_bounds [OF pos] by simp
  with assms(2) have "(2::rat) powi (ilog2 x) < 2 powi (k + 1)" by linarith
  then have "ilog2 x < k + 1" using assms(3) by (intro power_int_le_imp_less_exp [of "2::rat"]) simp_all
  with assms(3) have ek: "e \<le> k" by (simp add: e_def)
  have y: "y = of_int n * q"
    using assms(4) False
    by (simp add: round_binary64_def Let_def e_def [symmetric] q_def [symmetric] n_def [symmetric]
          split: if_splits del: power_int_numeral)
  have "y - x = (of_int n - x / q) * q"
    using qpos by (simp add: y left_diff_distrib)
  then have "\<bar>y - x\<bar> = \<bar>of_int n - x / q\<bar> * q"
    using qpos by (simp add: abs_mult)
  also have "\<dots> \<le> 1 / 2 * q"
    using round_half_even_error [of "x / q"] qpos by (simp add: n_def mult_right_mono)
  also have "\<dots> = 2 powi (e - 53)"
  proof -
    have "(2::rat) powi (e - 52) = 2 powi (e - 53 + 1)" by simp
    also have "\<dots> = 2 powi (e - 53) * 2" by (subst power_int_add) simp_all
    finally show ?thesis by (simp add: q_def)
  qed
  also have "\<dots> \<le> 2 powi (k - 53)" using ek by (intro power_int_increasing) simp_all
  finally show ?thesis .
qed

lemma percentage_value:
  assumes "c \<le> t" and "0 < t"
  shows "\<exists>y. js_times (js_div (Num (of_nat c)) (Num (of_nat t))) (Num 100) = Num y
             \<and> 0 \<le> y \<and> y \<le> 100 \<and> \<bar>y - of_nat c / of_nat t * 100\<bar> \<le> 1 / 2 ^ 45"
proof -
  define x1 :: rat where "x1 = of_nat c / of_nat t"
  have x1: "0 \<le> x1" "x1 \<le> 1" using assms by (simp_all add: x1_def)
  obtain y1 where y1: "round_binary64 x1 = Num y1" "0 \<le> y1" "y1 \<le> 1"
    using round_binary64_le [of x1 1] x1 by auto
  have e1: "\<bar>y1 - x1\<bar> \<le> 2 powi (0 - 53)"
    using x1 y1(1) by (intro round_binary64_error) simp_all
  define x2 where "x2 = y1 * 100"
  have x2: "0 \<le> x2" "x2 \<le> 100" using y1 by (simp_all add: x2_def)
  obtain y2 where y2: "round_binary64 x2 = Num y2" "0 \<le> y2" "y2 \<le> 100"
    using round_binary64_le [of x2 100] x2 by auto
  have e2: "\<bar>y2 - x2\<bar> \<le> 2 powi (6 - 53)"
    using x2 y2(1) by (intro round_binary64_error) simp_all
  have eq: "js_times (js_div (Num (of_nat c)) (Num (of_nat t))) (Num 100) = Num y2"
    using assms(2) y1(1) y2(1) by (simp add: x1_def x2_def)
  have "\<bar>y2 - x1 * 100\<bar> = \<bar>(y2 - x2) + 100 * (y1 - x1)\<bar>"
    by (simp add: x2_def algebra_simps)
  also have "\<dots> \<le> \<bar>y2 - x2\<bar> + \<bar>100 * (y1 - x1)\<bar>"
    by (rule abs_triangle_ineq)
  also have "\<dots> = \<bar>y2 - x2\<bar> + 100 * \<bar>y1 - x1\<bar>"
    by (simp only: abs_mult abs_numeral)
  also have "\<dots> \<le> 2 powi (6 - 53) + 100 * 2 powi (0 - 53)"
    using e1 e2 by (intro add_mono mult_left_mono) simp_all
  also have "\<dots> \<le> 1 / 2 ^ 45" by (simp add: power_int_minus_divide)
  finally have "\<bar>y2 - of_nat c / of_nat t * 100\<bar> \<le> 1 / 2 ^ 45" by (simp add: x1_def)
  with eq y2 show ?thesis by blast
qed

lemma vote_count_le_totalVotes:
  "i < length results \<Longrightarrow> vote_count (results ! i) \<le> totalVotes results"
  using member_le_sum_list [of "vote_count (results ! i)" "map vote_count results"]
  by (simp add: totalVotes_sum_list)

subsection \<open>The rendered percentages\<close>

text \<open>
  C4. When \<open>totalVotes\<close> is positive, each rendered percentage is the number that
  \<open>vote_count / totalVotes * 100\<close> evaluates to in binary64 arithmetic: a finite value
  between \<open>0\<close> and \<open>100\<close>, within \<open>2\<^sup>-\<^sup>4\<^sup>5\<close> of the exact quotient times \<open>100\<close>. When
  \<open>totalVotes\<close> is zero, every percentage is \<open>0\<close> and is shown as \<open>0.0%\<close>. A division by zero
  would show as \<open>NaN\<close> or \<open>Infinity\<close>; neither is ever rendered.
\<close>

theorem percentage_guarded:
  "length (percentages results) = length results
   \<and> (\<forall>i. i < length results \<and> 0 < totalVotes results \<longrightarrow>
          percentages results ! i =
            js_times (js_div (Num (of_nat (vote_count (results ! i))))
                             (Num (of_nat (totalVotes results))))
                     (Num 100)
          \<and> (\<exists>y. percentages results ! i = Num y \<and> 0 \<le> y \<and> y \<le> 100
                 \<and> \<bar>y - of_nat (vote_count (results ! i)) / of_nat (totalVotes results) * 100\<bar>
                     \<le> 1 / 2 ^ 45))
   \<and> (\<forall>i. i < length results \<and> totalVotes results = 0 \<longrightarrow>
          percentages results ! i = Num 0 \<and> percentage_labels results ! i = ''0.0%'')
   \<and> NaN \<notin> set (percentages results) \<and> Infinity \<notin> set (percentages results)"
proof -
  have pos: "percentages results ! i =
            js_times (js_div (Num (of_nat (vote_count (results ! i))))
                             (Num (of_nat (totalVotes results))))
                     (Num 100)
          \<and> (\<exists>y. percentages results ! i = Num y \<and> 0 \<le> y \<and> y \<le> 100
                 \<and> \<bar>y - of_nat (vote_count (results ! i)) / of_nat (totalVotes results) * 100\<bar>
                     \<le> 1 / 2 ^ 45)"
    if "i < length results" "0 < totalVotes results" for i
    using that percentage_value [OF vote_count_le_totalVotes [OF that(1)] that(2)]
    by (simp add: percentages_def percentage_def)
  have zero: "percentages results ! i = Num 0 \<and> percentage_labels results ! i = ''0.0%''"
    if "i < length results" "totalVotes results = 0" for i
    using that
    by (simp add: percentage_labels_def percentages_def percentage_def toFixed1_def
          decimal.simps [of 0])
  have fin: "\<exists>y. p = Num y" if "p \<in> set (percentages results)" for p
  proof -
    from that obtain i where i: "i < length results" "p = percentages results ! i"
      by (auto simp: percentages_def in_set_conv_nth)
    show ?thesis
    proof (cases "0 < totalVotes results")
      case True
      with pos [OF i(1)] i(2) show ?thesis by blast
    next
      case False
      with zero [OF i(1)] i(2) show ?thesis by simp
    qed
  qed
  have nan: "NaN \<notin> set (percentages results)"
    and inf: "Infinity \<notin> set (percentages results)"
    using fin by fastforce+
  have len: "length (percentages results) = length results"
    by (simp add: percentages_def)
  show ?thesis
    using len pos zero nan inf by blast
qed

theorem percentage_guarded_witness:
  "percentages
     [\<lparr>vc_candidate_id = ''a'', candidate_name = ''A'', candidate_party = ''X'', vote_count = 2\<rparr>,
      \<lparr>vc_candidate_id = ''b'', candidate_name = ''B'', candidate_party = ''Y'', vote_count = 1\<rparr>]
     = [Num (2345624805922133 / 35184372088832), Num (2345624805922133 / 70368744177664)]
   \<and> percentage_labels
     [\<lparr>vc_candidate_id = ''a'', candidate_name = ''A'', candidate_party = ''X'', vote_count = 2\<rparr>,
      \<lparr>vc_candidate_id = ''b'', candidate_name = ''B'', candidate_party = ''Y'', vote_count = 1\<rparr>]
     = [''66.7%'', ''33.3%'']
   \<and> percentages
     [\<lparr>vc_candidate_id = ''a'', candidate_name = ''Alice'', candidate_party = ''X'', vote_count = 0\<rparr>]
     = [Num 0]
   \<and> percentage_labels
     [\<lparr>vc_candidate_id = ''a'', candidate_name = ''Alice'', candidate_party = ''X'', vote_count = 0\<rparr>]
     = [''0.0%'']"
proof -
  have q23: "round_binary64 (2 / 3) = Num (6004799503160661 / 9007199254740992)"
    using round_binary64_eqI [of "- 1" "2 / 3" 6004799503160661] by simp
  have q13: "round_binary64 (1 / 3) = Num (6004799503160661 / 18014398509481984)"
    using round_binary64_eqI [of "- 2" "1 / 3" 6004799503160661] by simp
  have p23: "round_binary64 (150119987579016525 / 2251799813685248)
      = Num (2345624805922133 / 35184372088832)"
    using round_binary64_eqI [of 6 "150119987579016525 / 2251799813685248" 4691249611844266]
    by simp
  have p13: "round_binary64 (150119987579016525 / 4503599627370496)
      = Num (2345624805922133 / 70368744177664)"
    using round_binary64_eqI [of 5 "150119987579016525 / 4503599627370496" 4691249611844266]
    by simp
  show ?thesis
    using
      percentage_guarded
        [of "[\<lparr>vc_candidate_id = ''a'', candidate_name = ''A'', candidate_party = ''X'', vote_count = 2\<rparr>,
              \<lparr>vc_candidate_id = ''b'', candidate_name = ''B'', candidate_party = ''Y'', vote_count = 1\<rparr>]"]
      percentage_guarded
        [of "[\<lparr>vc_candidate_id = ''a'', candidate_name = ''Alice'', candidate_party = ''X'', vote_count = 0\<rparr>]"]
    by (simp add: percentage_labels_def percentages_def percentage_def totalVotes_def
          toFixed1_def Let_def q23 q13 p23 p13 floor_rat_numeral
          decimal.simps [of 66] decimal.simps [of 33] decimal.simps [of 7]
          decimal.simps [of 6] decimal.simps [of 3] decimal.simps [of 0])
qed

section \<open>Voter participation\<close>

lemma voters_fetched:
  "voters (fst (fetchVoters (Inr ps) (Inr vs) st)) = votersWithStatus ps vs"
  by (simp add: fetchVoters_def)

text \<open>
  C6. After a successful fetch, \<open>voters\<close> is determined by the fetched profiles and vote
  records alone. Dropping the flag gives back the profiles in their fetch order, and the
  flag of each is true exactly when some vote record's \<open>voter_id\<close> is the profile's id.
\<close>

theorem fetchVoters_labels:
  "map profile.truncate (voters (fst (fetchVoters (Inr ps) (Inr vs) st))) = ps
   \<and> map has_voted (voters (fst (fetchVoters (Inr ps) (Inr vs) st)))
       = map (\<lambda>p. \<exists>v \<in> set vs. voter_id v = profile_id p) ps"
proof -
  have "map profile.truncate (votersWithStatus ps vs) = ps"
    by (induction ps) (simp_all add: votersWithStatus_def profile.defs Voter.defs)
  moreover have "map has_voted (votersWithStatus ps vs)
      = map (\<lambda>p. \<exists>v \<in> set vs. voter_id v = profile_id p) ps"
    by (induction ps) (simp_all add: votersWithStatus_def profile.defs Voter.defs list_ex_iff)
  ultimately show ?thesis by (simp add: voters_fetched)
qed

theorem fetchVoters_labels_witness:
  "voters (fst (fetchVoters
      (Inr [\<lparr>profile_id = ''u2'', email = ''b@x.org'', full_name = None, created_at = ''2024-02-01''\<rparr>,
            \<lparr>profile_id = ''u1'', email = ''a@x.org'', full_name = Some ''Ann'', created_at = ''2024-01-01''\<rparr>])
      (Inr [\<lparr>voter_id = ''u1'', candidate_id = ''a''\<rparr>])
      \<lparr>adm_candidates = [], voteResults = [], voters = [], adm_loading = False,
       newCandidate = empty_form\<rparr>))
   = [\<lparr>profile_id = ''u2'', email = ''b@x.org'', full_name = None, created_at = ''2024-02-01'',
       has_voted = False\<rparr>,
      \<lparr>profile_id = ''u1'', email = ''a@x.org'', full_name = Some ''Ann'', created_at = ''2024-01-01'',
       has_voted = True\<rparr>]"
  using fetchVoters_labels
    [of "[\<lparr>profile_id = ''u2'', email = ''b@x.org'', full_name = None, created_at = ''2024-02-01''\<rparr>,
          \<lparr>profile_id = ''u1'', email = ''a@x.org'', full_name = Some ''Ann'', created_at = ''2024-01-01''\<rparr>]"
        "[\<lparr>voter_id = ''u1'', candidate_id = ''a''\<rparr>]"
        "\<lparr>adm_candidates = [], voteResults = [], voters = [], adm_loading = False,
          newCandidate = empty_form\<rparr>"]
  by (simp add: fetchVoters_def votersWithStatus_def profile.defs Voter.defs)

section \<open>Candidate administration\<close>

lemma fetchCandidates_fields:
  "newCandidate (fst (fetchCandidates cr st)) = newCandidate st"
  "voteResults (fst (fetchCandidates cr st)) = voteResults st"
  "adm_candidates (fst (fetchCandidates (Inr data) st)) = (case data of None \<Rightarrow> [] | Some rows \<Rightarrow> rows)"
  "snd (fetchCandidates (Inr data) st) = []"
  by (simp_all add: fetchCandidates_def split: sum.splits)

lemma fetchVoteResults_fields:
  "newCandidate (fst (fetchVoteResults vr rr st)) = newCandidate st"
  "adm_candidates (fst (fetchVoteResults vr rr st)) = adm_candidates st"
  "snd (fetchVoteResults (Inr vs) (Inr cs) st) = []"
  by (simp_all add: fetchVoteResults_def Let_def split: sum.splits)

lemma handleAddCandidate_success:
  "handleAddCandidate (Resolved None) cr vr rr st =
     (fst (fetchVoteResults vr rr (fst (fetchCandidates cr (st\<lparr>newCandidate := empty_form\<rparr>)))),
      [PreventDefault, InsertCandidate (candidate_payload (newCandidate st)),
       ToastSuccess ''Candidate added successfully'', SetNewCandidate empty_form,
       FetchCandidates, FetchVoteResults]
        @ snd (fetchCandidates cr (st\<lparr>newCandidate := empty_form\<rparr>))
        @ snd (fetchVoteResults vr rr (fst (fetchCandidates cr (st\<lparr>newCandidate := empty_form\<rparr>)))))"
  by (simp add: handleAddCandidate_def Let_def split_beta)

lemma refresh_is_not_insert:
  "filter is_insert (snd (fetchCandidates cr st)) = []"
  "filter is_insert (snd (fetchVoteResults vr rr st)) = []"
  by (simp_all add: fetchCandidates_def fetchVoteResults_def Let_def split: sum.splits)

text \<open>
  The two refreshes commute on the state: whichever query is answered first, the state
  after both is the same.
\<close>

lemma refresh_order_irrelevant:
  "fst (fetchVoteResults vr rr (fst (fetchCandidates cr st)))
     = fst (fetchCandidates cr (fst (fetchVoteResults vr rr st)))"
  by (simp add: fetchCandidates_def fetchVoteResults_def Let_def split: sum.splits)

text \<open>
  C8. Whatever the backend answers, \<open>handleAddCandidate\<close> attempts exactly one insert,
  of the form's name and party with description and photo reference turned into
  \<open>null\<close> when they are the empty string, and never into the empty string itself. When
  the insert resolves without error, all four form fields are cleared whatever the
  refreshing queries answer, and both refreshes run: the candidate list becomes the rows
  the candidates query returns, and the tally becomes the sorted counts derived from the
  rows the two tally queries return.
\<close>

theorem handleAddCandidate_creates:
  "filter is_insert (snd (handleAddCandidate resp cr vr rr st)) =
     [InsertCandidate
        \<lparr>name = form_name (newCandidate st),
         party = form_party (newCandidate st),
         description = (if form_description (newCandidate st) = [] then None
                        else Some (form_description (newCandidate st))),
         photo_url = (if form_photo_url (newCandidate st) = [] then None
                      else Some (form_photo_url (newCandidate st)))\<rparr>]
   \<and> description (candidate_payload (newCandidate st)) \<noteq> Some []
   \<and> photo_url (candidate_payload (newCandidate st)) \<noteq> Some []
   \<and> newCandidate (fst (handleAddCandidate (Resolved None) cr vr rr st))
       = \<lparr>form_name = [], form_party = [], form_description = [], form_photo_url = []\<rparr>
   \<and> adm_candidates (fst (handleAddCandidate (Resolved None) (Inr data) vr rr st))
       = (case data of None \<Rightarrow> [] | Some rows \<Rightarrow> rows)
   \<and> voteResults (fst (handleAddCandidate (Resolved None) cr (Inr vs) (Inr cs) st))
       = js_sort compare_counts (voteCounts vs cs)
   \<and> snd (handleAddCandidate (Resolved None) (Inr data) (Inr vs) (Inr cs) st) =
       [PreventDefault,
        InsertCandidate (candidate_payload (newCandidate st)),
        ToastSuccess ''Candidate added successfully'',
        SetNewCandidate
          \<lparr>form_name = [], form_party = [], form_description = [], form_photo_url = []\<rparr>,
        FetchCandidates,
        FetchVoteResults]"
proof -
  have ins: "filter is_insert (snd (handleAddCandidate resp cr vr rr st)) =
      [InsertCandidate (candidate_payload (newCandidate st))]"
  proof (cases resp)
    case (Resolved e)
    show ?thesis
    proof (cases e)
      case None
      with Resolved show ?thesis
        by (simp add: handleAddCandidate_success refresh_is_not_insert)
    next
      case (Some err)
      with Resolved show ?thesis by (simp add: handleAddCandidate_def)
    qed
  next
    case Rejected
    then show ?thesis by (simp add: handleAddCandidate_def)
  qed
  have payload: "candidate_payload (newCandidate st) =
        \<lparr>name = form_name (newCandidate st),
         party = form_party (newCandidate st),
         description = (if form_description (newCandidate st) = [] then None
                        else Some (form_description (newCandidate st))),
         photo_url = (if form_photo_url (newCandidate st) = [] then None
                      else Some (form_photo_url (newCandidate st)))\<rparr>"
    by (simp add: candidate_payload_def or_null_def)
  have nonempty: "description (candidate_payload (newCandidate st)) \<noteq> Some []"
    "photo_url (candidate_payload (newCandidate st)) \<noteq> Some []"
    by (simp_all add: candidate_payload_def or_null_def)
  have form: "newCandidate (fst (handleAddCandidate (Resolved None) cr vr rr st))
       = \<lparr>form_name = [], form_party = [], form_description = [], form_photo_url = []\<rparr>"
    by (simp add: handleAddCandidate_success fetchVoteResults_fields fetchCandidates_fields
          empty_form_def)
  have cands: "adm_candidates (fst (handleAddCandidate (Resolved None) (Inr data) vr rr st))
       = (case data of None \<Rightarrow> [] | Some rows \<Rightarrow> rows)"
    by (simp add: handleAddCandidate_success fetchVoteResults_fields fetchCandidates_fields)
  have tally: "voteResults (fst (handleAddCandidate (Resolved None) cr (Inr vs) (Inr cs) st))
       = js_sort compare_counts (voteCounts vs cs)"
    by (simp add: handleAddCandidate_success voteResults_fetched)
  have trace: "snd (handleAddCandidate (Resolved None) (Inr data) (Inr vs) (Inr cs) st) =
       [PreventDefault,
        InsertCandidate (candidate_payload (newCandidate st)),
        ToastSuccess ''Candidate added successfully'',
        SetNewCandidate
          \<lparr>form_name = [], form_party = [], form_description = [], form_photo_url = []\<rparr>,
        FetchCandidates,
        FetchVoteResults]"
    by (simp add: handleAddCandidate_success fetchVoteResults_fields fetchCandidates_fields
          empty_form_def)
  show ?thesis
    unfolding ins payload [symmetric]
    using nonempty form cands tally trace by simp
qed

theorem handleAddCandidate_creates_witness:
  "handleAddCandidate (Resolved None)
     (Inr (Some [\<lparr>cand_id = ''a'', cand_name = ''Alice'', cand_party = ''X'',
                   cand_description = None, cand_photo_url = Some ''p.jpg''\<rparr>]))
     (Inr [])
     (Inr [\<lparr>cand_id = ''a'', cand_name = ''Alice'', cand_party = ''X''\<rparr>])
     \<lparr>adm_candidates = [], voteResults = [], voters = [], adm_loading = True,
      newCandidate = \<lparr>form_name = ''Alice'', form_party = ''X'', form_description = [],
                      form_photo_url = ''p.jpg''\<rparr>\<rparr>
   = (\<lparr>adm_candidates = [\<lparr>cand_id = ''a'', cand_name = ''Alice'', cand_party = ''X'',
                           cand_description = None, cand_photo_url = Some ''p.jpg''\<rparr>],
       voteResults = [\<lparr>vc_candidate_id = ''a'', candidate_name = ''Alice'',
                        candidate_party = ''X'', vote_count = 0\<rparr>],
       voters = [], adm_loading = False,
       newCandidate = \<lparr>form_name = [], form_party = [], form_description = [],
                       form_photo_url = []\<rparr>\<rparr>,
      [PreventDefault,
       InsertCandidate \<lparr>name = ''Alice'', party = ''X'', description = None,
                        photo_url = Some ''p.jpg''\<rparr>,
       ToastSuccess ''Candidate added successfully'',
       SetNewCandidate \<lparr>form_name = [], form_party = [], form_description = [],
                        form_photo_url = []\<rparr>,
       FetchCandidates, FetchVoteResults])"
  using handleAddCandidate_creates
    [of "Resolved None"
        "Inr (Some [\<lparr>cand_id = ''a'', cand_name = ''Alice'', cand_party = ''X'',
                      cand_description = None, cand_photo_url = Some ''p.jpg''\<rparr>])"
        "Inr []"
        "Inr [\<lparr>cand_id = ''a'', cand_name = ''Alice'', cand_party = ''X''\<rparr>]"
        "\<lparr>adm_candidates = [], voteResults = [], voters = [], adm_loading = True,
          newCandidate = \<lparr>form_name = ''Alice'', form_party = ''X'', form_description = [],
                          form_photo_url = ''p.jpg''\<rparr>\<rparr>"]
  by (simp add: handleAddCandidate_def fetchCandidates_def fetchVoteResults_def voteCounts_def
        js_sort_def candidate_payload_def or_null_def empty_form_def)

end
